theory Spec2Isabelle
  imports Main "HOL-Library.Word"
begin

unbundle bit_operations_syntax

section \<open>Errors\<close>

text \<open>
  A Go \<open>error\<close> is either an error produced by a collaborator outside the package (the
  transport, a parser, a serializer), known here by its message, or the result of
  \<open>fmt.Errorf(prefix + "%w", err)\<close>, which keeps \<open>err\<close> as the wrapped cause.
\<close>

datatype error = ExtError string | Errorf string error

fun Error :: "error \<Rightarrow> string" where
  "Error (ExtError msg) = msg"
| "Error (Errorf prefix err) = prefix @ Error err"

fun Unwrap :: "error \<Rightarrow> error option" where
  "Unwrap (ExtError msg) = None"
| "Unwrap (Errorf prefix err) = Some err"

section \<open>Header names: \<open>textproto.CanonicalMIMEHeaderKey\<close>\<close>

text \<open>
  \<open>http.Header.Set\<close>, \<open>Add\<close> and \<open>Get\<close> canonicalize the key with
  \<open>textproto.CanonicalMIMEHeaderKey\<close> of the Go standard library. Strings are byte
  sequences; a byte is read as a number with \<open>of_char\<close>.
\<close>

definition is_lower :: "char \<Rightarrow> bool" where
  "is_lower c = (of_char (CHR ''a'') \<le> (of_char c :: nat) \<and> (of_char c :: nat) \<le> of_char (CHR ''z''))"

definition is_upper :: "char \<Rightarrow> bool" where
  "is_upper c = (of_char (CHR ''A'') \<le> (of_char c :: nat) \<and> (of_char c :: nat) \<le> of_char (CHR ''Z''))"

definition is_digit :: "char \<Rightarrow> bool" where
  "is_digit c = (of_char (CHR ''0'') \<le> (of_char c :: nat) \<and> (of_char c :: nat) \<le> of_char (CHR ''9''))"

text \<open>The distance between the two cases of a letter: \<open>const toLower = 'a' - 'A'\<close>.\<close>

definition toLower :: nat where
  "toLower = of_char (CHR ''a'') - of_char (CHR ''A'')"

text \<open>
  \<open>validHeaderFieldByte\<close>: the token bytes of RFC 7230, that is digits, letters and
  the punctuation \<open>! # $ % & ' * + - . ^ _ ` | ~\<close>.
\<close>

definition validHeaderFieldByte :: "char \<Rightarrow> bool" where
  "validHeaderFieldByte c =
     (is_digit c \<or> is_lower c \<or> is_upper c \<or>
      c \<in> set [CHR ''!'', CHR ''#'', CHR ''$'', CHR ''%'', CHR ''&'', CHR 0x27, CHR ''*'',
                 CHR ''+'', CHR ''-'', CHR ''.'', CHR ''^'', CHR ''_'', CHR 0x60, CHR ''|'',
                 CHR ''~''])"

text \<open>
  The first loop of \<open>canonicalMIMEHeaderKey\<close>: \<open>None\<close> when a byte is neither a valid
  header byte nor a space (the key is returned unchanged), otherwise the \<open>noCanon\<close> flag,
  set by a space.
\<close>

fun scan_noCanon :: "bool \<Rightarrow> string \<Rightarrow> bool option" where
  "scan_noCanon noCanon [] = Some noCanon"
| "scan_noCanon noCanon (c # cs) =
     (if validHeaderFieldByte c then scan_noCanon noCanon cs
      else if c = CHR '' '' then scan_noCanon True cs
      else None)"

text \<open>
  The second loop: the first letter and every letter after a dash in upper case, the
  others in lower case.
\<close>

fun canon_loop :: "bool \<Rightarrow> string \<Rightarrow> string" where
  "canon_loop upper [] = []"
| "canon_loop upper (c # cs) =
     (let c' = (if upper \<and> is_lower c then char_of ((of_char c :: nat) - toLower)
                else if \<not> upper \<and> is_upper c then char_of ((of_char c :: nat) + toLower)
                else c)
      in c' # canon_loop (c' = CHR ''-'') cs)"

text \<open>
  \<open>canonicalMIMEHeaderKey\<close> returns the key and whether it is a well-formed header key.
  Its last step looks the result up in the table of common headers, which maps a
  canonical name to an equal, shared string; the lookup does not change the value.
\<close>

definition canonicalMIMEHeaderKey :: "string \<Rightarrow> string \<times> bool" where
  "canonicalMIMEHeaderKey a =
     (case scan_noCanon False a of
        None \<Rightarrow> (a, False)
      | Some True \<Rightarrow> (a, True)
      | Some False \<Rightarrow> (canon_loop True a, True))"

text \<open>
  The quick check of \<open>CanonicalMIMEHeaderKey\<close>: it walks the key \<open>s\<close> and returns it as it
  is at an invalid byte or at the end, and calls \<open>canonicalMIMEHeaderKey\<close> at the first
  letter in the wrong case.
\<close>

fun quick_check :: "bool \<Rightarrow> string \<Rightarrow> string \<Rightarrow> string" where
  "quick_check upper [] s = s"
| "quick_check upper (c # cs) s =
     (if \<not> validHeaderFieldByte c then s
      else if upper \<and> is_lower c then fst (canonicalMIMEHeaderKey s)
      else if \<not> upper \<and> is_upper c then fst (canonicalMIMEHeaderKey s)
      else quick_check (c = CHR ''-'') cs s)"

definition CanonicalMIMEHeaderKey :: "string \<Rightarrow> string" where
  "CanonicalMIMEHeaderKey s = quick_check True s s"

section \<open>\<open>http.Header\<close>\<close>

text \<open>\<open>type Header map[string][]string\<close>.\<close>

type_synonym Header = "string \<rightharpoonup> string list"

definition Header_Set :: "Header \<Rightarrow> string \<Rightarrow> string \<Rightarrow> Header" where
  "Header_Set h key v = h(CanonicalMIMEHeaderKey key \<mapsto> [v])"

text \<open>\<open>h[key] = append(h[key], value)\<close>: a missing entry reads as the empty slice.\<close>

definition Header_Add :: "Header \<Rightarrow> string \<Rightarrow> string \<Rightarrow> Header" where
  "Header_Add h key v =
     (let k = CanonicalMIMEHeaderKey key
      in h(k \<mapsto> (case h k of None \<Rightarrow> [] | Some vs \<Rightarrow> vs) @ [v]))"

text \<open>\<open>Get\<close> returns the first value of the key, or the empty string when there is none.\<close>

definition Header_Get :: "Header \<Rightarrow> string \<Rightarrow> string" where
  "Header_Get h key =
     (case h (CanonicalMIMEHeaderKey key) of
        None \<Rightarrow> []
      | Some [] \<Rightarrow> []
      | Some (v # vs) \<Rightarrow> v)"

section \<open>\<open>base64.StdEncoding.EncodeToString\<close>\<close>

definition encodeStd :: string where
  "encodeStd = ''ABCDEFGHIJKLMNOPQRSTUVWXYZabcdefghijklmnopqrstuvwxyz0123456789+/''"

text \<open>
  Three source bytes give four characters, six bits each; a rest of one or two bytes
  gives two or three characters and padding with \<open>=\<close>.
\<close>

fun EncodeToString :: "string \<Rightarrow> string" where
  "EncodeToString [] = []"
| "EncodeToString [a] =
     (let val = push_bit 16 (of_char a :: nat)
      in [encodeStd ! (drop_bit 18 val AND 0x3F), encodeStd ! (drop_bit 12 val AND 0x3F),
          CHR ''='', CHR ''=''])"
| "EncodeToString [a, b] =
     (let val = push_bit 16 (of_char a :: nat) OR push_bit 8 (of_char b)
      in [encodeStd ! (drop_bit 18 val AND 0x3F), encodeStd ! (drop_bit 12 val AND 0x3F),
          encodeStd ! (drop_bit 6 val AND 0x3F), CHR ''=''])"
| "EncodeToString (a # b # c # src) =
     (let val = push_bit 16 (of_char a :: nat) OR push_bit 8 (of_char b) OR of_char c
      in encodeStd ! (drop_bit 18 val AND 0x3F) # encodeStd ! (drop_bit 12 val AND 0x3F) #
         encodeStd ! (drop_bit 6 val AND 0x3F) # encodeStd ! (val AND 0x3F) #
         EncodeToString src)"

section \<open>Byte streams\<close>

text \<open>
  An \<open>io.Reader\<close> is known by what reading it to the end gives: the bytes it delivers
  and the condition that ends it, \<open>None\<close> for \<open>io.EOF\<close> and \<open>Some err\<close> for a read error.
\<close>

record stream =
  content :: string
  fail :: "error option"

text \<open>
  \<open>(*json.Encoder).Encode\<close> of the Go standard library, given the serializer
  \<open>marshal\<close> (the standalone JSON serialization of a value, \<open>json.Marshal\<close>): the value is
  serialized into a buffer, a newline is appended to terminate it, and the buffer is written
  to the underlying writer in one piece. When serialization fails nothing is written.
  The result is the bytes written and the returned error.
\<close>

definition json_Encoder_Encode :: "('v \<Rightarrow> error + string) \<Rightarrow> 'v \<Rightarrow> string \<times> error option" where
  "json_Encoder_Encode marshal v =
     (case marshal v of
        Inl err \<Rightarrow> ([], Some err)
      | Inr b \<Rightarrow> (b @ [CHR 0x0A], None))"

text \<open>
  \<open>io.Pipe\<close> with a producer that writes \<open>written\<close> and then calls
  \<open>pw.CloseWithError(err)\<close>: the read half delivers the written bytes and then \<open>err\<close>, or
  \<open>io.EOF\<close> when \<open>err\<close> is nil.
\<close>

definition io_Pipe :: "string \<times> error option \<Rightarrow> stream" where
  "io_Pipe produced = \<lparr>content = fst produced, fail = snd produced\<rparr>"

definition ReadAll :: "stream \<Rightarrow> string \<times> error option" where
  "ReadAll s = (content s, fail s)"

section \<open>The request: \<open>request.go\<close>\<close>

text \<open>\<open>time.Duration\<close> is an \<open>int64\<close> count of nanoseconds.\<close>

type_synonym Duration = "64 word"

definition time_Minute :: Duration where
  "time_Minute = 60 * 1000 * 1000 * 1000"

definition jsonMIME :: string where
  "jsonMIME = ''application/json''"

definition xmlMIME :: string where
  "xmlMIME = ''application/xml''"

text \<open>
  \<open>type Request struct { header http.Header; timeout *time.Duration; body io.Reader }\<close>.
  The methods below change the request they are called on and return it.
\<close>

record Request =
  header :: Header
  timeout :: "Duration option"
  body :: "stream option"

definition New :: Request where
  "New = \<lparr>header = Map.empty, timeout = None, body = None\<rparr>"

definition WithTimeout :: "Duration \<Rightarrow> Request \<Rightarrow> Request" where
  "WithTimeout d r = r\<lparr>timeout := Some d\<rparr>"

definition WithBody :: "stream \<Rightarrow> Request \<Rightarrow> Request" where
  "WithBody b r = r\<lparr>body := Some b\<rparr>"

text \<open>
  \<open>WithJSONBody\<close>: the body is the read half of a pipe fed by
  \<open>pw.CloseWithError(json.NewEncoder(pw).Encode(v))\<close>, and Content-Type is set.
\<close>

definition WithJSONBody :: "('v \<Rightarrow> error + string) \<Rightarrow> 'v \<Rightarrow> Request \<Rightarrow> Request" where
  "WithJSONBody marshal v r =
     r\<lparr>body := Some (io_Pipe (json_Encoder_Encode marshal v)),
       header := Header_Set (header r) ''Content-Type'' jsonMIME\<rparr>"

definition WithHeader :: "string \<Rightarrow> string \<Rightarrow> Request \<Rightarrow> Request" where
  "WithHeader key v r = r\<lparr>header := Header_Set (header r) key v\<rparr>"

definition WithMultiValuedHeader :: "string \<Rightarrow> string \<Rightarrow> Request \<Rightarrow> Request" where
  "WithMultiValuedHeader key v r = r\<lparr>header := Header_Add (header r) key v\<rparr>"

definition WithContentType :: "string \<Rightarrow> Request \<Rightarrow> Request" where
  "WithContentType s r = r\<lparr>header := Header_Set (header r) ''Content-Type'' s\<rparr>"

text \<open>\<open>fmt.Sprintf("%s:%s", username, password)\<close> and \<open>fmt.Sprintf("Basic %s", ...)\<close>.\<close>

definition WithBasicAuth :: "string \<Rightarrow> string \<Rightarrow> Request \<Rightarrow> Request" where
  "WithBasicAuth username password r =
     (let auth = username @ '':'' @ password
      in r\<lparr>header := Header_Set (header r) ''Authorization''
                         (''Basic '' @ EncodeToString auth)\<rparr>)"

definition WithBearerAuthentication :: "string \<Rightarrow> Request \<Rightarrow> Request" where
  "WithBearerAuthentication token r =
     r\<lparr>header := Header_Set (header r) ''Authorization'' (''Bearer '' @ token)\<rparr>"

section \<open>Clients, contexts and the world: \<open>context.go\<close>\<close>

text \<open>
  An \<open>*http.Client\<close> is an address into the list of allocated clients (\<open>None\<close> is the nil
  pointer); allocation appends to the list. A response body is an address into the list
  of bodies, each with what is left to read and whether it has been closed. The package
  variable \<open>DefaultClientTimeout\<close> is part of the state.
\<close>

record http_Client =
  Timeout :: Duration

record body_state =
  remaining :: stream
  closed :: bool

record world =
  clients :: "http_Client list"
  bodies :: "body_state list"
  DefaultClientTimeout :: Duration

text \<open>The state the program starts in: \<open>var DefaultClientTimeout = time.Minute * 1\<close>.\<close>

definition init_world :: world where
  "init_world = \<lparr>clients = [], bodies = [], DefaultClientTimeout = time_Minute * 1\<rparr>"

text \<open>
  A \<open>context.Context\<close> is the chain of its \<open>WithValue\<close> pairs, innermost first. A value
  is an \<open>*http.Client\<close> or a value of some other type.
\<close>

datatype ctx_key = clientContextKey | otherKey string

datatype ctx_val = ClientVal "nat option" | OtherVal string

type_synonym ctx = "(ctx_key \<times> ctx_val) list"

definition context_Background :: ctx where
  "context_Background = []"

definition context_WithValue :: "ctx \<Rightarrow> ctx_key \<Rightarrow> ctx_val \<Rightarrow> ctx" where
  "context_WithValue c k v = (k, v) # c"

text \<open>\<open>ctx.Value(key)\<close>: the value of the innermost pair with the key, or nil.\<close>

definition ctx_Value :: "ctx \<Rightarrow> ctx_key \<Rightarrow> ctx_val option" where
  "ctx_Value c k = map_of c k"

definition AttachClientToContext :: "ctx \<Rightarrow> nat option \<Rightarrow> ctx" where
  "AttachClientToContext c cl = context_WithValue c clientContextKey (ClientVal cl)"

text \<open>The type assertion \<open>c, ok := x.(*http.Client)\<close>.\<close>

fun assert_Client :: "ctx_val option \<Rightarrow> nat option \<times> bool" where
  "assert_Client (Some (ClientVal p)) = (p, True)"
| "assert_Client (Some (OtherVal x)) = (None, False)"
| "assert_Client None = (None, False)"

text \<open>
  \<open>clientFromContext\<close>: the attached client, or a new client with the default timeout.
  The result is the client's address and the state after the allocation.
\<close>

definition clientFromContext :: "ctx \<Rightarrow> world \<Rightarrow> nat \<times> world" where
  "clientFromContext c w =
     (let (p, ok) = assert_Client (ctx_Value c clientContextKey)
      in if \<not> ok \<or> p = None
         then (length (clients w),
               w\<lparr>clients := clients w @ [\<lparr>Timeout = DefaultClientTimeout w\<rparr>]\<rparr>)
         else (the p, w))"

section \<open>Sending: \<open>Request.Do\<close>\<close>

record http_Request =
  Method :: string
  URL :: string
  Header :: Header
  ReqBody :: "stream option"

record http_Response =
  StatusCode :: int
  Body :: nat

text \<open>
  \<open>http.NewRequestWithContext\<close>: an empty method means GET; the method and the URL are
  checked by the standard library, here the parameter \<open>validate\<close>, which gives the error of
  a malformed method or URL.
\<close>

definition NewRequestWithContext ::
  "(string \<Rightarrow> string \<Rightarrow> error option) \<Rightarrow> string \<Rightarrow> string \<Rightarrow> stream option \<Rightarrow> error + http_Request" where
  "NewRequestWithContext validate method url b =
     (let m = (if method = [] then ''GET'' else method)
      in case validate m url of
           Some err \<Rightarrow> Inl err
         | None \<Rightarrow> Inr \<lparr>Method = m, URL = url, Header = Map.empty, ReqBody = b\<rparr>)"

text \<open>The assignment \<open>c.Timeout = d\<close> through the pointer \<open>c\<close>.\<close>

definition set_Timeout :: "nat \<Rightarrow> Duration \<Rightarrow> world \<Rightarrow> world" where
  "set_Timeout c d w = w\<lparr>clients := (clients w)[c := (clients w ! c)\<lparr>Timeout := d\<rparr>]\<rparr>"

text \<open>
  \<open>c.Do(req)\<close>: the parameter \<open>send\<close> stands for \<open>http.Client.Do\<close> as a whole, that is
  for everything the standard library does with the request of a client (redirects,
  cookies, the round trip, the wrapping of its errors). It answers with an error or with
  a status code and a body to read; the body is allocated unread and open.
\<close>

definition Client_Do ::
  "(http_Client \<Rightarrow> http_Request \<Rightarrow> error + int \<times> stream) \<Rightarrow> nat \<Rightarrow> http_Request \<Rightarrow> world
     \<Rightarrow> (error + http_Response) \<times> world" where
  "Client_Do send c rq w =
     (case send (clients w ! c) rq of
        Inl err \<Rightarrow> (Inl err, w)
      | Inr (status, s) \<Rightarrow>
          (Inr \<lparr>StatusCode = status, Body = length (bodies w)\<rparr>,
           w\<lparr>bodies := bodies w @ [\<lparr>remaining = s, closed = False\<rparr>]\<rparr>))"

definition Request_Do ::
  "(http_Client \<Rightarrow> http_Request \<Rightarrow> error + int \<times> stream) \<Rightarrow> (string \<Rightarrow> string \<Rightarrow> error option)
     \<Rightarrow> Request \<Rightarrow> ctx \<Rightarrow> string \<Rightarrow> string \<Rightarrow> world \<Rightarrow> (error + http_Response) \<times> world" where
  "Request_Do send validate r c method url w =
     (case NewRequestWithContext validate method url (body r) of
        Inl err \<Rightarrow> (Inl err, w)
      | Inr rq0 \<Rightarrow>
          (let rq = rq0\<lparr>Header := header r\<rparr>;
               (cl, w1) = clientFromContext c w;
               w2 = (case timeout r of Some d \<Rightarrow> set_Timeout cl d w1 | None \<Rightarrow> w1)
           in Client_Do send cl rq w2))"

section \<open>Results: \<open>withResult\<close>\<close>

record Result =
  Response :: http_Response
  RawData :: string

text \<open>
  \<open>unmarshal\<close> decodes the data into the destination the caller supplied; it gets the
  destination's value and returns the error and the destination's new value.
\<close>

record 'd withResult =
  req :: Request
  unmarshal :: "(string \<Rightarrow> 'd \<Rightarrow> error option \<times> 'd) option"

text \<open>\<open>io.ReadAll(resp.Body)\<close> and \<open>resp.Body.Close()\<close> on the body at an address.\<close>

definition Body_ReadAll :: "nat \<Rightarrow> world \<Rightarrow> (string \<times> error option) \<times> world" where
  "Body_ReadAll b w =
     (let bs = bodies w ! b
      in if closed bs then (([], Some (ExtError ''http: read on closed response body'')), w)
         else (ReadAll (remaining bs),
               w\<lparr>bodies := (bodies w)[b := bs\<lparr>remaining := \<lparr>content = [], fail = fail (remaining bs)\<rparr>\<rparr>]\<rparr>))"

definition Body_Close :: "nat \<Rightarrow> world \<Rightarrow> world" where
  "Body_Close b w = w\<lparr>bodies := (bodies w)[b := (bodies w ! b)\<lparr>closed := True\<rparr>]\<rparr>"

text \<open>
  The statements of \<open>withResult.Do\<close> after \<open>defer resp.Body.Close()\<close>. The result is the
  pair \<open>(*Result, error)\<close> that Do returns, the destination and the state.
\<close>

definition withResult_Do_body ::
  "'d withResult \<Rightarrow> http_Response \<Rightarrow> 'd \<Rightarrow> world \<Rightarrow> (Result option \<times> error option) \<times> 'd \<times> world" where
  "withResult_Do_body wr resp dest w =
     (let ((data, err), w1) = Body_ReadAll (Body resp) w
      in case err of
           Some e \<Rightarrow> ((None, Some (Errorf ''failed to read response body: '' e)), dest, w1)
         | None \<Rightarrow>
             (case unmarshal wr of
                None \<Rightarrow> ((Some \<lparr>Response = resp, RawData = data\<rparr>, None), dest, w1)
              | Some f \<Rightarrow>
                  (case f data dest of
                     (Some e, dest') \<Rightarrow> ((None, Some e), dest', w1)
                   | (None, dest') \<Rightarrow>
                       ((Some \<lparr>Response = resp, RawData = data\<rparr>, None), dest', w1))))"

text \<open>
  \<open>withResult.Do\<close>: when the request fails it returns the error; otherwise the deferred
  \<open>Close\<close> runs after whatever the rest of the function returns.
\<close>

definition withResult_Do ::
  "(http_Client \<Rightarrow> http_Request \<Rightarrow> error + int \<times> stream) \<Rightarrow> (string \<Rightarrow> string \<Rightarrow> error option)
     \<Rightarrow> 'd withResult \<Rightarrow> ctx \<Rightarrow> string \<Rightarrow> string \<Rightarrow> 'd \<Rightarrow> world
     \<Rightarrow> (Result option \<times> error option) \<times> 'd \<times> world" where
  "withResult_Do send validate wr c method url dest w =
     (case Request_Do send validate (req wr) c method url w of
        (Inl err, w1) \<Rightarrow> ((None, Some err), dest, w1)
      | (Inr resp, w1) \<Rightarrow>
          (let (ret, dest', w2) = withResult_Do_body wr resp dest w1
           in (ret, dest', Body_Close (Body resp) w2)))"

definition WithResult :: "Request \<Rightarrow> 'd withResult" where
  "WithResult r = \<lparr>req = r, unmarshal = None\<rparr>"

text \<open>
  \<open>WithJSONResult\<close> and \<open>WithXMLResult\<close>; \<open>json_Unmarshal\<close> and \<open>xml_Unmarshal\<close> are the
  parsers of the standard library.
\<close>

definition WithJSONResult :: "(string \<Rightarrow> 'd \<Rightarrow> error option \<times> 'd) \<Rightarrow> Request \<Rightarrow> 'd withResult" where
  "WithJSONResult json_Unmarshal r =
     \<lparr>req = (if Header_Get (header r) ''Accept'' = []
             then r\<lparr>header := Header_Set (header r) ''Accept'' jsonMIME\<rparr> else r),
      unmarshal = Some (\<lambda>data dest.
        case json_Unmarshal data dest of
          (Some err, dest') \<Rightarrow> (Some (Errorf ''failed to unmarshal JSON: '' err), dest')
        | (None, dest') \<Rightarrow> (None, dest'))\<rparr>"

definition WithXMLResult :: "(string \<Rightarrow> 'd \<Rightarrow> error option \<times> 'd) \<Rightarrow> Request \<Rightarrow> 'd withResult" where
  "WithXMLResult xml_Unmarshal r =
     \<lparr>req = (if Header_Get (header r) ''Accept'' = []
             then r\<lparr>header := Header_Set (header r) ''Accept'' xmlMIME\<rparr> else r),
      unmarshal = Some (\<lambda>data dest.
        case xml_Unmarshal data dest of
          (Some err, dest') \<Rightarrow> (Some (Errorf ''failed to unmarshal JSON: '' err), dest')
        | (None, dest') \<Rightarrow> (None, dest'))\<rparr>"

section \<open>Notions used to state the properties\<close>

text \<open>Two names differ only in letter case when they agree after folding \<open>A-Z\<close> to \<open>a-z\<close>.\<close>

definition ascii_lower :: "char \<Rightarrow> char" where
  "ascii_lower c = (if is_upper c then char_of ((of_char c :: nat) + toLower) else c)"

text \<open>The byte that the second loop of \<open>canonicalMIMEHeaderKey\<close> writes for \<open>c\<close>.\<close>

definition canon_byte :: "bool \<Rightarrow> char \<Rightarrow> char" where
  "canon_byte upper c =
     (if upper \<and> is_lower c then char_of ((of_char c :: nat) - toLower)
      else if \<not> upper \<and> is_upper c then char_of ((of_char c :: nat) + toLower)
      else c)"

text \<open>A sequence of header calls on a request, and the values a request holds for a name.\<close>

datatype header_op = Set_op string string | Add_op string string

fun run_op :: "header_op \<Rightarrow> Request \<Rightarrow> Request" where
  "run_op (Set_op key v) r = WithHeader key v r"
| "run_op (Add_op key v) r = WithMultiValuedHeader key v r"

definition values_of :: "Request \<Rightarrow> string \<Rightarrow> string list" where
  "values_of r key = (case header r (CanonicalMIMEHeaderKey key) of None \<Rightarrow> [] | Some vs \<Rightarrow> vs)"

text \<open>
  The client a context carries: the address that \<open>clientFromContext\<close> finds attached, or
  \<open>None\<close> when the context has no client, a value of another type, or the nil client.
\<close>

definition attached :: "ctx \<Rightarrow> nat option" where
  "attached c = fst (assert_Client (ctx_Value c clientContextKey))"

text \<open>The timeout of the client that a dispatch under a context would resolve.\<close>

definition resolved_Timeout :: "ctx \<Rightarrow> world \<Rightarrow> Duration" where
  "resolved_Timeout c w = (let (cl, w1) = clientFromContext c w in Timeout (clients w1 ! cl))"

text \<open>
  Base64 decoding as RFC 4648 defines it, written without the encoder and its table. The
  value of a character: \<open>A-Z\<close> are 0 to 25, \<open>a-z\<close> 26 to 51, \<open>0-9\<close> 52 to 61, \<open>+\<close> is 62
  and \<open>/\<close> is 63.
\<close>

definition base64_value :: "char \<Rightarrow> nat option" where
  "base64_value c =
     (if is_upper c then Some ((of_char c :: nat) - of_char (CHR ''A''))
      else if is_lower c then Some ((of_char c :: nat) - of_char (CHR ''a'') + 26)
      else if is_digit c then Some ((of_char c :: nat) - of_char (CHR ''0'') + 52)
      else if c = CHR ''+'' then Some 62
      else if c = CHR ''/'' then Some 63
      else None)"

text \<open>Four values of six bits make 24 bits, read as three bytes.\<close>

definition quad_value :: "nat \<Rightarrow> nat \<Rightarrow> nat \<Rightarrow> nat \<Rightarrow> nat" where
  "quad_value s0 s1 s2 s3 = push_bit 18 s0 OR push_bit 12 s1 OR push_bit 6 s2 OR s3"

definition byte_at :: "nat \<Rightarrow> nat \<Rightarrow> char" where
  "byte_at k v = char_of (drop_bit k v AND 255)"

text \<open>
  One group of four characters: with no padding it gives three bytes, with one \<open>=\<close> two
  bytes and with two \<open>=\<close> one byte. The bits that padding leaves unused must be zero, so
  that a byte sequence has one encoding only.
\<close>

definition decode_quad :: "char \<Rightarrow> char \<Rightarrow> char \<Rightarrow> char \<Rightarrow> string option" where
  "decode_quad c0 c1 c2 c3 =
     (case (base64_value c0, base64_value c1) of
        (Some s0, Some s1) \<Rightarrow>
          if c2 = CHR ''='' \<and> c3 = CHR ''='' then
            (let v = quad_value s0 s1 0 0
             in if byte_at 8 v = CHR 0x00 \<and> byte_at 0 v = CHR 0x00 then Some [byte_at 16 v] else None)
          else
            (case base64_value c2 of
               Some s2 \<Rightarrow>
                 if c3 = CHR ''='' then
                   (let v = quad_value s0 s1 s2 0
                    in if byte_at 0 v = CHR 0x00 then Some [byte_at 16 v, byte_at 8 v] else None)
                 else
                   (case base64_value c3 of
                      Some s3 \<Rightarrow>
                        (let v = quad_value s0 s1 s2 s3
                         in Some [byte_at 16 v, byte_at 8 v, byte_at 0 v])
                    | None \<Rightarrow> None)
             | None \<Rightarrow> None)
      | _ \<Rightarrow> None)"

text \<open>A text is decoded group by group; only the last group may be padded.\<close>

fun base64_decode :: "string \<Rightarrow> string option" where
  "base64_decode [] = Some []"
| "base64_decode [c0, c1, c2, c3] = decode_quad c0 c1 c2 c3"
| "base64_decode (c0 # c1 # c2 # c3 # rest) =
     (if c2 = CHR ''='' \<or> c3 = CHR ''='' then None
      else case (decode_quad c0 c1 c2 c3, base64_decode rest) of
             (Some x, Some y) \<Rightarrow> Some (x @ y)
           | _ \<Rightarrow> None)"
| "base64_decode _ = None"

section \<open>Canonical header names\<close>

lemma toLower_32: "toLower = 32"
  by (simp add: toLower_def)

lemma scan_noCanon_valid: "list_all validHeaderFieldByte s \<Longrightarrow> scan_noCanon nc s = Some nc"
  by (induction s arbitrary: nc) auto

lemma scan_noCanon_False:
  "scan_noCanon nc s = Some False \<Longrightarrow> \<not> nc \<and> list_all validHeaderFieldByte s"
  by (induction s arbitrary: nc) (auto split: if_splits)

lemma canonicalMIMEHeaderKey_fst:
  "fst (canonicalMIMEHeaderKey s) = (if list_all validHeaderFieldByte s then canon_loop True s else s)"
proof (cases "list_all validHeaderFieldByte s")
  case True
  then show ?thesis
    by (simp add: canonicalMIMEHeaderKey_def scan_noCanon_valid)
next
  case False
  then have "scan_noCanon False s \<noteq> Some False"
    using scan_noCanon_False by blast
  with False show ?thesis
    by (auto simp: canonicalMIMEHeaderKey_def split: option.splits bool.splits)
qed

lemma upper_shift_neq: "is_upper c \<Longrightarrow> char_of ((of_char c :: nat) + toLower) \<noteq> c"
  by (auto simp: is_upper_def toLower_32 char_of_eq_iff take_bit_eq_mod)

lemma lower_shift_neq: "is_lower c \<Longrightarrow> char_of ((of_char c :: nat) - toLower) \<noteq> c"
  by (auto simp: is_lower_def toLower_32 char_of_eq_iff take_bit_eq_mod)

text \<open>A key with an invalid byte comes back unchanged, wherever the quick check stops.\<close>

lemma quick_check_invalid:
  "\<not> list_all validHeaderFieldByte s \<Longrightarrow> quick_check upper cs s = s"
  by (induction cs arbitrary: upper) (simp_all add: canonicalMIMEHeaderKey_fst)

lemma quick_check_valid:
  "list_all validHeaderFieldByte s \<Longrightarrow> list_all validHeaderFieldByte cs \<Longrightarrow>
   quick_check upper cs s = (if canon_loop upper cs = cs then s else canon_loop True s)"
proof (induction cs arbitrary: upper)
  case Nil
  then show ?case by simp
next
  case (Cons c cs)
  then show ?case
    by (auto simp: canonicalMIMEHeaderKey_fst Let_def upper_shift_neq lower_shift_neq)
qed

lemma CanonicalMIMEHeaderKey_eq:
  "CanonicalMIMEHeaderKey s = (if list_all validHeaderFieldByte s then canon_loop True s else s)"
  by (simp add: CanonicalMIMEHeaderKey_def quick_check_invalid quick_check_valid)

lemma shift_back:
  "of_char c + 32 = (of_char d :: nat) \<Longrightarrow> c = char_of ((of_char d :: nat) - 32)"
  by (metis add_diff_cancel_right' char_of_char)

lemma canon_byte_case:
  "ascii_lower c = ascii_lower d \<Longrightarrow> canon_byte upper c = canon_byte upper d"
  by (auto simp: ascii_lower_def canon_byte_def is_upper_def is_lower_def toLower_32
        char_of_eq_iff take_bit_eq_mod shift_back shift_back [symmetric] split: if_splits)

lemma canon_loop_byte:
  "canon_loop upper (c # cs) = canon_byte upper c # canon_loop (canon_byte upper c = CHR ''-'') cs"
  by (simp add: canon_byte_def Let_def)

lemma canon_loop_case:
  "map ascii_lower xs = map ascii_lower ys \<Longrightarrow> canon_loop upper xs = canon_loop upper ys"
proof (induction xs arbitrary: ys upper)
  case Nil
  then show ?case by simp
next
  case (Cons x xs)
  then obtain y ys' where ys: "ys = y # ys'" "ascii_lower x = ascii_lower y"
      "map ascii_lower xs = map ascii_lower ys'"
    by (cases ys) auto
  from ys(2) have "canon_byte upper x = canon_byte upper y"
    by (rule canon_byte_case)
  with Cons.IH [OF ys(3)] ys(1) show ?case
    by (simp only: canon_loop_byte)
qed

lemma valid_ascii_lower: "validHeaderFieldByte (ascii_lower c) = validHeaderFieldByte c"
  by (auto simp: validHeaderFieldByte_def ascii_lower_def is_upper_def is_lower_def is_digit_def
        toLower_32 char_of_eq_iff take_bit_eq_mod)

lemma valid_case:
  "map ascii_lower xs = map ascii_lower ys \<Longrightarrow>
   list_all validHeaderFieldByte xs = list_all validHeaderFieldByte ys"
proof -
  assume eq: "map ascii_lower xs = map ascii_lower ys"
  have "list_all validHeaderFieldByte zs = list_all validHeaderFieldByte (map ascii_lower zs)" for zs
    by (induction zs) (simp_all add: valid_ascii_lower)
  with eq show ?thesis by metis
qed

lemma CanonicalMIMEHeaderKey_case:
  "map ascii_lower k1 = map ascii_lower k2 \<Longrightarrow> list_all validHeaderFieldByte k1 \<Longrightarrow>
   CanonicalMIMEHeaderKey k1 = CanonicalMIMEHeaderKey k2"
  using valid_case [of k1 k2] canon_loop_case [of k1 k2 True]
  by (simp add: CanonicalMIMEHeaderKey_eq)

text \<open>The names the package itself uses are canonical already.\<close>

lemma canon_Content_Type: "CanonicalMIMEHeaderKey ''Content-Type'' = ''Content-Type''"
  by code_simp

lemma canon_Accept: "CanonicalMIMEHeaderKey ''Accept'' = ''Accept''"
  by code_simp

lemma canon_Authorization: "CanonicalMIMEHeaderKey ''Authorization'' = ''Authorization''"
  by code_simp

lemma canon_content_type: "CanonicalMIMEHeaderKey ''content-type'' = ''Content-Type''"
  by code_simp

lemma canon_x_tag: "CanonicalMIMEHeaderKey ''x-tag'' = ''X-Tag''"
  by code_simp

lemma canon_X_TAG: "CanonicalMIMEHeaderKey ''X-TAG'' = ''X-Tag''"
  by code_simp

lemma canon_X_Tag: "CanonicalMIMEHeaderKey ''X-Tag'' = ''X-Tag''"
  by code_simp

section \<open>Header operations\<close>

lemma values_of_WithHeader: "values_of (WithHeader key v r) key = [v]"
  by (simp add: values_of_def WithHeader_def Header_Set_def)

lemma values_of_WithMultiValuedHeader:
  "CanonicalMIMEHeaderKey k = CanonicalMIMEHeaderKey key \<Longrightarrow>
   values_of (WithMultiValuedHeader k v r) key = values_of r key @ [v]"
  by (simp add: values_of_def WithMultiValuedHeader_def Header_Add_def Let_def)

lemma values_of_adds:
  "\<forall>kv\<in>set adds. CanonicalMIMEHeaderKey (fst kv) = CanonicalMIMEHeaderKey key \<Longrightarrow>
   values_of (fold (\<lambda>kv. WithMultiValuedHeader (fst kv) (snd kv)) adds r) key
     = values_of r key @ map snd adds"
proof (induction adds arbitrary: r)
  case Nil
  then show ?case by simp
next
  case (Cons a adds)
  then show ?case
    by (simp add: values_of_WithMultiValuedHeader)
qed

text \<open>
  C6. Whatever header calls came before, \<open>WithHeader\<close> (Set) leaves exactly the one value
  it was given under the canonical name; calls of \<open>WithMultiValuedHeader\<close> (Add) on the
  same canonical name, under any spelling, append their values in call order, after a
  Set to its single value and in general to the values already there.
\<close>

theorem Set_replaces_and_Add_accumulates:
  assumes "\<forall>kv\<in>set adds. CanonicalMIMEHeaderKey (fst kv) = CanonicalMIMEHeaderKey key"
  shows "header (WithHeader key v (fold run_op ops r)) (CanonicalMIMEHeaderKey key) = Some [v] \<and>
         values_of (fold (\<lambda>kv. WithMultiValuedHeader (fst kv) (snd kv)) adds
                      (WithHeader key v (fold run_op ops r))) key = v # map snd adds \<and>
         values_of (fold (\<lambda>kv. WithMultiValuedHeader (fst kv) (snd kv)) adds r) key
           = values_of r key @ map snd adds"
proof (intro conjI)
  show "header (WithHeader key v (fold run_op ops r)) (CanonicalMIMEHeaderKey key) = Some [v]"
    by (simp add: WithHeader_def Header_Set_def)
  show "values_of (fold (\<lambda>kv. WithMultiValuedHeader (fst kv) (snd kv)) adds
                      (WithHeader key v (fold run_op ops r))) key = v # map snd adds"
    using values_of_adds [OF assms] by (simp add: values_of_WithHeader)
  show "values_of (fold (\<lambda>kv. WithMultiValuedHeader (fst kv) (snd kv)) adds r) key
           = values_of r key @ map snd adds"
    using values_of_adds [OF assms] .
qed

theorem Set_replaces_and_Add_accumulates_witness:
  "header (WithHeader ''X-Tag'' ''b''
       (fold run_op [Add_op ''x-tag'' ''a'', Set_op ''Accept'' ''*/*'', Add_op ''X-TAG'' ''a2''] New))
     ''X-Tag'' = Some [''b''] \<and>
   values_of (fold (\<lambda>kv. WithMultiValuedHeader (fst kv) (snd kv)) [(''x-tag'', ''c''), (''X-TAG'', ''d'')]
       (WithHeader ''X-Tag'' ''b''
          (fold run_op [Add_op ''x-tag'' ''a'', Set_op ''Accept'' ''*/*'', Add_op ''X-TAG'' ''a2''] New)))
     ''X-Tag'' = [''b'', ''c'', ''d''] \<and>
   values_of (fold (\<lambda>kv. WithMultiValuedHeader (fst kv) (snd kv)) [(''x-tag'', ''c''), (''X-TAG'', ''d'')] New)
     ''X-Tag'' = [''c'', ''d'']"
  using Set_replaces_and_Add_accumulates [of "[(''x-tag'', ''c''), (''X-TAG'', ''d'')]" "''X-Tag''" "''b''"
      "[Add_op ''x-tag'' ''a'', Set_op ''Accept'' ''*/*'', Add_op ''X-TAG'' ''a2'']" New]
  by (simp add: canon_x_tag canon_X_TAG canon_X_Tag values_of_def New_def)

text \<open>
  C7, as amended. Two header names that consist of valid header-field bytes and differ
  only in the case of their letters are the same header: \<open>WithHeader\<close> and
  \<open>WithMultiValuedHeader\<close> do the same under either spelling, a lookup gives the same
  under either, and what one spelling sets the other reads and appends to.
\<close>

theorem header_names_differing_in_case:
  assumes "map ascii_lower k1 = map ascii_lower k2" and "list_all validHeaderFieldByte k1"
  shows "WithHeader k1 v r = WithHeader k2 v r \<and>
         WithMultiValuedHeader k1 v r = WithMultiValuedHeader k2 v r \<and>
         Header_Get (header r) k1 = Header_Get (header r) k2 \<and>
         Header_Get (header (WithHeader k1 v r)) k2 = v \<and>
         values_of (WithMultiValuedHeader k2 v' (WithHeader k1 v r)) k1 = [v, v']"
proof -
  have c: "CanonicalMIMEHeaderKey k1 = CanonicalMIMEHeaderKey k2"
    using assms by (rule CanonicalMIMEHeaderKey_case)
  show ?thesis
    by (simp add: c WithHeader_def WithMultiValuedHeader_def Header_Set_def Header_Add_def
          Header_Get_def values_of_def Let_def)
qed

theorem header_names_differing_in_case_witness:
  "WithHeader ''content-type'' ''a'' New = WithHeader ''Content-Type'' ''a'' New \<and>
   WithMultiValuedHeader ''content-type'' ''a'' New = WithMultiValuedHeader ''Content-Type'' ''a'' New \<and>
   Header_Get (header New) ''content-type'' = Header_Get (header New) ''Content-Type'' \<and>
   Header_Get (header (WithHeader ''content-type'' ''a'' New)) ''Content-Type'' = ''a'' \<and>
   values_of (WithMultiValuedHeader ''Content-Type'' ''b'' (WithHeader ''content-type'' ''a'' New))
     ''content-type'' = [''a'', ''b'']"
proof -
  have h1: "map ascii_lower ''content-type'' = map ascii_lower ''Content-Type''"
    by code_simp
  have h2: "list_all validHeaderFieldByte ''content-type''"
    by (simp add: validHeaderFieldByte_def is_lower_def is_upper_def is_digit_def)
  show ?thesis
    by (rule header_names_differing_in_case [OF h1 h2])
qed

text \<open>
  C7 as stated fails for names with a byte that is not a valid header-field byte, which
  are not canonicalized: \<open>x y\<close> and \<open>X Y\<close> differ only in case, yet what is set under
  the first is not found under the second.
\<close>

theorem header_names_with_space_counterexample:
  "map ascii_lower ''x y'' = map ascii_lower ''X Y'' \<and>
   Header_Get (header (WithHeader ''x y'' ''1'' New)) ''x y'' = ''1'' \<and>
   Header_Get (header (WithHeader ''x y'' ''1'' New)) ''X Y'' = []"
proof -
  have c1: "CanonicalMIMEHeaderKey ''x y'' = ''x y''" by code_simp
  have c2: "CanonicalMIMEHeaderKey ''X Y'' = ''X Y''" by code_simp
  have l: "map ascii_lower ''x y'' = map ascii_lower ''X Y''"
    by code_simp
  have g: "Header_Get (header (WithHeader ''x y'' ''1'' New)) ''x y'' = ''1'' \<and>
      Header_Get (header (WithHeader ''x y'' ''1'' New)) ''X Y'' = []"
    by (simp add: c1 c2 WithHeader_def Header_Set_def Header_Get_def New_def)
  from l g show ?thesis by (rule conjI)
qed

section \<open>Base64: the encoder against the decoder\<close>

lemma and_63: "(x::nat) AND 63 = take_bit 6 x"
  by (simp add: take_bit_eq_mask mask_eq_exp_minus_1)

lemma and_255: "(x::nat) AND 255 = take_bit 8 x"
  by (simp add: take_bit_eq_mask mask_eq_exp_minus_1)

lemma bit_below: "(a::nat) < 2 ^ k \<Longrightarrow> bit a n \<Longrightarrow> n < k"
proof -
  assume "a < 2 ^ k" and b: "bit a n"
  then have "take_bit k a = a" by (simp add: take_bit_nat_eq_self_iff)
  with b have "bit (take_bit k a) n" by simp
  then show "n < k" by (simp add: bit_take_bit_iff)
qed

lemma bit_of_char: "bit (of_char c :: nat) n \<Longrightarrow> n < 8"
  using bit_below [of "of_char c" 8 n] by simp

text \<open>The three bytes of a group are recovered from the 24-bit value.\<close>

lemma bytes_of_val:
  fixes a b c :: char
  defines "val \<equiv> push_bit 16 (of_char a :: nat) OR push_bit 8 (of_char b) OR of_char c"
  shows "drop_bit 16 val AND 255 = of_char a"
    and "drop_bit 8 val AND 255 = of_char b"
    and "val AND 255 = of_char c"
  unfolding val_def and_255
  by (rule bit_eqI; auto simp: bit_simps dest: bit_of_char)+

lemma sextets_of_val:
  fixes val :: nat
  assumes "val < 2 ^ 24"
  shows "push_bit 18 (drop_bit 18 val AND 63) OR push_bit 12 (drop_bit 12 val AND 63) OR
         push_bit 6 (drop_bit 6 val AND 63) OR (val AND 63) = val"
  unfolding and_63
proof (rule bit_eqI)
  fix n
  have hi: "n < 24" if "bit val n"
    using that by (rule bit_below [OF assms])
  consider "n < 6" | "6 \<le> n" "n < 12" | "12 \<le> n" "n < 18" | "18 \<le> n" "n < 24" | "24 \<le> n"
    by linarith
  then show "bit (push_bit 18 (take_bit 6 (drop_bit 18 val)) OR push_bit 12 (take_bit 6 (drop_bit 12 val)) OR
         push_bit 6 (take_bit 6 (drop_bit 6 val)) OR take_bit 6 val) n = bit val n"
  proof cases
    case 1
    then show ?thesis by (simp add: bit_simps)
  next
    case 2
    then show ?thesis by (auto simp: bit_simps)
  next
    case 3
    then show ?thesis by (auto simp: bit_simps)
  next
    case 4
    then show ?thesis by (auto simp: bit_simps)
  next
    case 5
    then have "\<not> bit val n" using hi by fastforce
    with 5 show ?thesis by (simp add: bit_simps)
  qed
qed

lemma val_bound:
  "push_bit 16 (of_char a :: nat) OR push_bit 8 (of_char b) OR of_char c < 2 ^ 24"
proof -
  have "take_bit 24 (push_bit 16 (of_char a :: nat) OR push_bit 8 (of_char b) OR of_char c)
      = push_bit 16 (of_char a :: nat) OR push_bit 8 (of_char b) OR of_char c"
    by (rule bit_eqI) (auto simp: bit_simps dest: bit_of_char)
  then show ?thesis
    by (metis take_bit_nat_less_exp)
qed

lemma value_table: "list_all (\<lambda>i. base64_value (encodeStd ! i) = Some i) [0..<64]"
  by (simp add: upt_rec encodeStd_def base64_value_def is_upper_def is_lower_def is_digit_def)

lemma base64_value_encodeStd: "i < 64 \<Longrightarrow> base64_value (encodeStd ! i) = Some i"
  using value_table by (simp add: list_all_iff)

lemma sextet_less: "(x::nat) AND 63 < 64"
  using take_bit_nat_less_exp [of 6 x] by (simp add: and_63)

lemma enc_value: "base64_value (encodeStd ! (x AND 63)) = Some (x AND 63)"
  by (rule base64_value_encodeStd) (rule sextet_less)

lemma value_pad: "base64_value (CHR ''='') = None"
  by (simp add: base64_value_def is_upper_def is_lower_def is_digit_def)

lemma enc_not_pad: "encodeStd ! (x AND 63) \<noteq> CHR ''=''"
  using enc_value [of x] value_pad by auto

lemma quad_of_val:
  "quad_value (drop_bit 18 val AND 63) (drop_bit 12 val AND 63) (drop_bit 6 val AND 63) (val AND 63) = val"
  if "val < 2 ^ 24" for val :: nat
  unfolding quad_value_def using that by (rule sextets_of_val)

lemma decode_quad_3:
  fixes a b c :: char
  defines "val \<equiv> push_bit 16 (of_char a :: nat) OR push_bit 8 (of_char b) OR of_char c"
  shows "decode_quad (encodeStd ! (drop_bit 18 val AND 63)) (encodeStd ! (drop_bit 12 val AND 63))
           (encodeStd ! (drop_bit 6 val AND 63)) (encodeStd ! (val AND 63)) = Some [a, b, c]"
proof -
  have v: "val < 2 ^ 24" unfolding val_def by (rule val_bound)
  have b16: "byte_at 16 val = a" and b8: "byte_at 8 val = b" and b0: "byte_at 0 val = c"
    unfolding val_def using bytes_of_val [of a b c] by (simp_all add: byte_at_def)
  show ?thesis
    by (simp add: decode_quad_def enc_value enc_not_pad quad_of_val [OF v] b16 b8 b0)
qed


lemma decode_quad_1:
  fixes a :: char
  defines "val \<equiv> push_bit 16 (of_char a :: nat)"
  shows "decode_quad (encodeStd ! (drop_bit 18 val AND 63)) (encodeStd ! (drop_bit 12 val AND 63))
           (CHR ''='') (CHR ''='') = Some [a]"
proof -
  have val: "val = push_bit 16 (of_char a :: nat) OR push_bit 8 (of_char (CHR 0x00)) OR of_char (CHR 0x00)"
    by (simp add: val_def)
  have v: "val < 2 ^ 24" unfolding val by (rule val_bound)
  have b16: "byte_at 16 val = a" and b8: "byte_at 8 val = CHR 0x00" and b0: "byte_at 0 val = CHR 0x00"
    unfolding val using bytes_of_val [of a "CHR 0x00" "CHR 0x00"]
    by (simp_all only: byte_at_def drop_bit_0 id_apply char_of_char)
  have low: "drop_bit 6 val AND 63 = 0" "val AND 63 = 0"
    unfolding val_def and_63 by (rule bit_eqI; auto simp: bit_simps)+
  from quad_of_val [OF v] low
  have q: "quad_value (drop_bit 18 val AND 63) (drop_bit 12 val AND 63) 0 0 = val"
    by simp
  show ?thesis
    by (simp add: decode_quad_def enc_value q b16 b8 b0)
qed

lemma decode_quad_2:
  fixes a b :: char
  defines "val \<equiv> push_bit 16 (of_char a :: nat) OR push_bit 8 (of_char b)"
  shows "decode_quad (encodeStd ! (drop_bit 18 val AND 63)) (encodeStd ! (drop_bit 12 val AND 63))
           (encodeStd ! (drop_bit 6 val AND 63)) (CHR ''='') = Some [a, b]"
proof -
  have val: "val = push_bit 16 (of_char a :: nat) OR push_bit 8 (of_char b) OR of_char (CHR 0x00)"
    by (simp add: val_def)
  have v: "val < 2 ^ 24" unfolding val by (rule val_bound)
  have b16: "byte_at 16 val = a" and b8: "byte_at 8 val = b" and b0: "byte_at 0 val = CHR 0x00"
    unfolding val using bytes_of_val [of a b "CHR 0x00"]
    by (simp_all only: byte_at_def drop_bit_0 id_apply char_of_char)
  have low: "val AND 63 = 0"
    unfolding val_def and_63 by (rule bit_eqI) (auto simp: bit_simps)
  from quad_of_val [OF v] low
  have q: "quad_value (drop_bit 18 val AND 63) (drop_bit 12 val AND 63) (drop_bit 6 val AND 63) 0 = val"
    by simp
  show ?thesis
    by (simp add: decode_quad_def enc_value enc_not_pad q b16 b8 b0)
qed

lemma EncodeToString_Nil_iff: "EncodeToString s = [] \<longleftrightarrow> s = []"
  by (cases s rule: EncodeToString.cases) (simp_all add: Let_def)

lemma base64_decode_more:
  "rest \<noteq> [] \<Longrightarrow> base64_decode (c0 # c1 # c2 # c3 # rest) =
     (if c2 = CHR ''='' \<or> c3 = CHR ''='' then None
      else case (decode_quad c0 c1 c2 c3, base64_decode rest) of
             (Some x, Some y) \<Rightarrow> Some (x @ y)
           | _ \<Rightarrow> None)"
  by (cases rest) simp_all

lemma base64_decode_EncodeToString: "base64_decode (EncodeToString s) = Some s"
proof (induction s rule: EncodeToString.induct)
  case 1
  show ?case by simp
next
  case (2 a)
  show ?case using decode_quad_1 [of a] by (simp add: Let_def)
next
  case (3 a b)
  show ?case using decode_quad_2 [of a b] by (simp add: Let_def)
next
  case (4 a b c src)
  show ?case
  proof (cases "src = []")
    case True
    then show ?thesis using decode_quad_3 [of a b c] by (simp add: Let_def)
  next
    case False
    then have "EncodeToString src \<noteq> []" by (simp add: EncodeToString_Nil_iff)
    then show ?thesis
      using decode_quad_3 [of a b c] "4.IH"
      by (simp add: Let_def base64_decode_more enc_not_pad)
  qed
qed

lemma base64_value_less: "base64_value c = Some i \<Longrightarrow> i < 64"
  by (auto simp: base64_value_def is_upper_def is_lower_def is_digit_def split: if_splits)

lemma base64_value_inj: "base64_value c = Some i \<Longrightarrow> base64_value d = Some i \<Longrightarrow> c = d"
proof -
  assume "base64_value c = Some i" and "base64_value d = Some i"
  then have "(of_char c :: nat) = of_char d"
    by (auto simp del: of_char_eq_iff
          simp: base64_value_def is_upper_def is_lower_def is_digit_def split: if_splits)
  then show "c = d" by simp
qed

lemma encodeStd_base64_value: "base64_value c = Some i \<Longrightarrow> encodeStd ! i = c"
  using base64_value_inj [of "encodeStd ! i" i c] base64_value_encodeStd [of i] base64_value_less [of c i]
  by simp

lemma not_bit_above: "(x::nat) < 64 \<Longrightarrow> 6 \<le> m \<Longrightarrow> \<not> bit x m"
  using bit_below [of x 6 m] by auto

lemma sextets_of_quad:
  assumes s: "s0 < 64" "s1 < 64" "s2 < 64" "s3 < 64"
  shows "drop_bit 18 (quad_value s0 s1 s2 s3) AND 63 = s0"
    and "drop_bit 12 (quad_value s0 s1 s2 s3) AND 63 = s1"
    and "drop_bit 6 (quad_value s0 s1 s2 s3) AND 63 = s2"
    and "quad_value s0 s1 s2 s3 AND 63 = s3"
proof -
  note nb = not_bit_above [OF s(1)] not_bit_above [OF s(2)] not_bit_above [OF s(3)]
    not_bit_above [OF s(4)]
  show "drop_bit 18 (quad_value s0 s1 s2 s3) AND 63 = s0"
    unfolding quad_value_def and_63
  proof (rule bit_eqI)
    fix n
    show "bit (take_bit 6 (drop_bit 18 (push_bit 18 s0 OR push_bit 12 s1 OR push_bit 6 s2 OR s3))) n
        = bit s0 n"
      by (cases "n < 6") (simp_all add: bit_simps nb)
  qed
  show "drop_bit 12 (quad_value s0 s1 s2 s3) AND 63 = s1"
    unfolding quad_value_def and_63
  proof (rule bit_eqI)
    fix n
    show "bit (take_bit 6 (drop_bit 12 (push_bit 18 s0 OR push_bit 12 s1 OR push_bit 6 s2 OR s3))) n
        = bit s1 n"
      by (cases "n < 6") (simp_all add: bit_simps nb)
  qed
  show "drop_bit 6 (quad_value s0 s1 s2 s3) AND 63 = s2"
    unfolding quad_value_def and_63
  proof (rule bit_eqI)
    fix n
    show "bit (take_bit 6 (drop_bit 6 (push_bit 18 s0 OR push_bit 12 s1 OR push_bit 6 s2 OR s3))) n
        = bit s2 n"
      by (cases "n < 6") (simp_all add: bit_simps nb)
  qed
  show "quad_value s0 s1 s2 s3 AND 63 = s3"
    unfolding quad_value_def and_63
  proof (rule bit_eqI)
    fix n
    show "bit (take_bit 6 (push_bit 18 s0 OR push_bit 12 s1 OR push_bit 6 s2 OR s3)) n
        = bit s3 n"
      by (cases "n < 6") (simp_all add: bit_simps nb)
  qed
qed

lemma quad_value_bound:
  assumes s: "s0 < 64" "s1 < 64" "s2 < 64" "s3 < 64"
  shows "quad_value s0 s1 s2 s3 < 2 ^ 24"
proof -
  note nb = not_bit_above [OF s(1)] not_bit_above [OF s(2)] not_bit_above [OF s(3)]
    not_bit_above [OF s(4)]
  have "take_bit 24 (quad_value s0 s1 s2 s3) = quad_value s0 s1 s2 s3"
    unfolding quad_value_def
  proof (rule bit_eqI)
    fix n
    show "bit (take_bit 24 (push_bit 18 s0 OR push_bit 12 s1 OR push_bit 6 s2 OR s3)) n
        = bit (push_bit 18 s0 OR push_bit 12 s1 OR push_bit 6 s2 OR s3) n"
      by (cases "n < 24") (simp_all add: bit_simps nb)
  qed
  then show ?thesis
    by (metis take_bit_nat_less_exp)
qed

lemma of_char_byte_at: "of_char (byte_at k v) = (drop_bit k v AND 255 :: nat)"
  by (simp add: byte_at_def and_255 take_bit_eq_mod)

lemma val_of_bytes:
  fixes v :: nat
  assumes "v < 2 ^ 24"
  shows "push_bit 16 (drop_bit 16 v AND 255) OR push_bit 8 (drop_bit 8 v AND 255) OR (v AND 255) = v"
  unfolding and_255
proof (rule bit_eqI)
  fix n
  have hi: "n < 24" if "bit v n"
    using that by (rule bit_below [OF assms])
  consider "n < 8" | "8 \<le> n" "n < 16" | "16 \<le> n" "n < 24" | "24 \<le> n"
    by linarith
  then show "bit (push_bit 16 (take_bit 8 (drop_bit 16 v)) OR push_bit 8 (take_bit 8 (drop_bit 8 v)) OR
         take_bit 8 v) n = bit v n"
  proof cases
    case 1
    then show ?thesis by (auto simp: bit_simps)
  next
    case 2
    then show ?thesis by (auto simp: bit_simps)
  next
    case 3
    then show ?thesis by (auto simp: bit_simps)
  next
    case 4
    then have "\<not> bit v n" using hi by fastforce
    with 4 show ?thesis by (simp add: bit_simps)
  qed
qed

lemma byte_at_zero: "byte_at k v = CHR 0x00 \<Longrightarrow> (drop_bit k v AND 255 :: nat) = 0"
  using of_char_byte_at [of k v] by simp

lemma decode_quad_Some:
  assumes "decode_quad c0 c1 c2 c3 = Some x"
  shows "EncodeToString x = [c0, c1, c2, c3] \<and>
         (if c3 = CHR ''='' then length x < 3 else length x = 3)"
proof -
  from assms obtain s0 s1 where s01: "base64_value c0 = Some s0" "base64_value c1 = Some s1"
    by (auto simp: decode_quad_def split: option.splits)
  note l01 = base64_value_less [OF s01(1)] base64_value_less [OF s01(2)]
  note e01 = encodeStd_base64_value [OF s01(1)] encodeStd_base64_value [OF s01(2)]
  show ?thesis
  proof (cases "c2 = CHR ''='' \<and> c3 = CHR ''=''")
    case True
    define v where "v = quad_value s0 s1 0 0"
    from assms True s01 have x: "x = [byte_at 16 v]"
      and z: "byte_at 8 v = CHR 0x00" "byte_at 0 v = CHR 0x00"
      by (auto simp: decode_quad_def v_def Let_def split: if_splits)
    have vb: "v < 2 ^ 24" unfolding v_def using quad_value_bound [of s0 s1 0 0] l01 by simp
    have "push_bit 16 (of_char (byte_at 16 v) :: nat) = v"
      using val_of_bytes [OF vb] byte_at_zero [OF z(1)] byte_at_zero [OF z(2)]
      by (simp add: of_char_byte_at)
    moreover have "drop_bit 18 v AND 63 = s0" "drop_bit 12 v AND 63 = s1"
      unfolding v_def using l01 by (simp_all add: sextets_of_quad)
    ultimately show ?thesis
      using True e01 by (simp add: x Let_def)
  next
    case False
    with assms s01 obtain s2 where s2: "base64_value c2 = Some s2"
      by (auto simp: decode_quad_def split: option.splits if_splits)
    note l2 = base64_value_less [OF s2]
    note e2 = encodeStd_base64_value [OF s2]
    show ?thesis
    proof (cases "c3 = CHR ''=''")
      case True
      define v where "v = quad_value s0 s1 s2 0"
      from assms True False s01 s2 have x: "x = [byte_at 16 v, byte_at 8 v]"
        and z: "byte_at 0 v = CHR 0x00"
        by (auto simp: decode_quad_def v_def Let_def split: if_splits)
      have vb: "v < 2 ^ 24" unfolding v_def using quad_value_bound [of s0 s1 s2 0] l01 l2 by simp
      have "push_bit 16 (of_char (byte_at 16 v) :: nat) OR push_bit 8 (of_char (byte_at 8 v)) = v"
        using val_of_bytes [OF vb] byte_at_zero [OF z]
        by (simp add: of_char_byte_at)
      moreover have "drop_bit 18 v AND 63 = s0" "drop_bit 12 v AND 63 = s1" "drop_bit 6 v AND 63 = s2"
        unfolding v_def using l01 l2 by (simp_all add: sextets_of_quad)
      ultimately show ?thesis
        using True e01 e2 by (simp add: x Let_def)
    next
      case c3: False
      with assms False s01 s2 obtain s3 where s3: "base64_value c3 = Some s3"
        by (auto simp: decode_quad_def split: option.splits if_splits)
      note l3 = base64_value_less [OF s3]
      note e3 = encodeStd_base64_value [OF s3]
      define v where "v = quad_value s0 s1 s2 s3"
      from assms c3 False s01 s2 s3 have x: "x = [byte_at 16 v, byte_at 8 v, byte_at 0 v]"
        by (auto simp: decode_quad_def v_def Let_def split: if_splits)
      have vb: "v < 2 ^ 24" unfolding v_def using quad_value_bound [of s0 s1 s2 s3] l01 l2 l3 by simp
      have "push_bit 16 (of_char (byte_at 16 v) :: nat) OR push_bit 8 (of_char (byte_at 8 v))
              OR of_char (byte_at 0 v) = v"
        using val_of_bytes [OF vb] by (simp add: of_char_byte_at)
      moreover have "drop_bit 18 v AND 63 = s0" "drop_bit 12 v AND 63 = s1" "drop_bit 6 v AND 63 = s2"
          "v AND 63 = s3"
        unfolding v_def using l01 l2 l3 by (simp_all add: sextets_of_quad)
      ultimately show ?thesis
        using c3 e01 e2 e3 by (simp add: x Let_def)
    qed
  qed
qed

lemma base64_decode_Some: "base64_decode x = Some s \<Longrightarrow> EncodeToString s = x"
proof (induction x arbitrary: s rule: length_induct)
  case (1 x)
  show ?case
  proof (cases x rule: base64_decode.cases)
    case 1
    with "1.prems" show ?thesis by simp
  next
    case (2 c0 c1 c2 c3)
    with "1.prems" show ?thesis using decode_quad_Some [of c0 c1 c2 c3 s] by simp
  next
    case (3 c0 c1 c2 c3 v va)
    with "1.prems" have np: "c2 \<noteq> CHR ''=''" "c3 \<noteq> CHR ''=''"
      by (auto split: if_splits)
    with 3 "1.prems" obtain y z where yz: "decode_quad c0 c1 c2 c3 = Some y"
        "base64_decode (v # va) = Some z" "s = y @ z"
      by (auto split: option.splits if_splits)
    from decode_quad_Some [OF yz(1)] np have y: "EncodeToString y = [c0, c1, c2, c3]" "length y = 3"
      by simp_all
    then obtain a b c where abc: "y = [a, b, c]"
      by (cases y rule: EncodeToString.cases) simp_all
    have "length (v # va) < length x" using 3 by simp
    with "1.IH" yz(2) have z: "EncodeToString z = v # va" by blast
    have "EncodeToString ([a, b, c] @ z) = EncodeToString [a, b, c] @ EncodeToString z"
      by (simp add: Let_def)
    also have "\<dots> = [c0, c1, c2, c3] @ (v # va)"
      using y(1) z by (simp only: abc)
    finally show ?thesis
      by (simp only: yz(3) abc 3 append.simps)
  qed (use "1.prems" in simp_all)
qed

text \<open>
  The encoder and the decoder agree: a text decodes to the bytes \<open>s\<close> exactly when it is
  what \<open>EncodeToString\<close> gives for \<open>s\<close>.
\<close>

lemma base64_decode_iff: "base64_decode x = Some s \<longleftrightarrow> x = EncodeToString s"
  using base64_decode_Some base64_decode_EncodeToString by blast

text \<open>The test vectors of RFC 4648, section 10.\<close>

lemma EncodeToString_RFC4648:
  "EncodeToString [] = [] \<and> EncodeToString ''f'' = ''Zg=='' \<and> EncodeToString ''fo'' = ''Zm8='' \<and>
   EncodeToString ''foo'' = ''Zm9v'' \<and> EncodeToString ''foob'' = ''Zm9vYg=='' \<and>
   EncodeToString ''fooba'' = ''Zm9vYmE='' \<and> EncodeToString ''foobar'' = ''Zm9vYmFy''"
  by (simp add: encodeStd_def)

section \<open>Basic authentication\<close>

text \<open>
  C9. \<open>WithBasicAuth\<close> sets the Authorization header to the single value \<open>Basic\<close>, a
  space, and the base64 encoding of the user name, a colon and the password: the value is
  \<open>Basic \<close> followed by what \<open>EncodeToString\<close> gives, and a text \<open>x\<close> decodes as base64 to
  the user name, a colon and the password exactly when \<open>Basic \<close> followed by \<open>x\<close> is the
  value of the header.
\<close>

theorem WithBasicAuth_Authorization:
  "header (WithBasicAuth username password r) ''Authorization''
     = Some [''Basic '' @ EncodeToString (username @ '':'' @ password)] \<and>
   Header_Get (header (WithBasicAuth username password r)) ''Authorization''
     = ''Basic '' @ EncodeToString (username @ '':'' @ password) \<and>
   (base64_decode x = Some (username @ '':'' @ password)) =
     (''Basic '' @ x = Header_Get (header (WithBasicAuth username password r)) ''Authorization'')"
  by (simp add: WithBasicAuth_def Header_Set_def Header_Get_def canon_Authorization
        base64_decode_iff)

text \<open>The header for the credentials of the package's own examples.\<close>

theorem WithBasicAuth_Authorization_witness:
  "Header_Get (header (WithBasicAuth ''u'' ''p'' New)) ''Authorization'' = ''Basic dTpw'' \<and>
   header (WithBasicAuth ''username'' ''password'' New) ''Authorization''
     = Some [''Basic dXNlcm5hbWU6cGFzc3dvcmQ=''] \<and>
   base64_decode ''dXNlcm5hbWU6cGFzc3dvcmQ='' = Some ''username:password''"
proof -
  have u: "EncodeToString ''u:p'' = ''dTpw''"
    by (simp add: encodeStd_def)
  have n: "EncodeToString ''username:password'' = ''dXNlcm5hbWU6cGFzc3dvcmQ=''"
    by (simp add: encodeStd_def)
  from WithBasicAuth_Authorization [of "''u''" "''p''" New] u
  have 1: "Header_Get (header (WithBasicAuth ''u'' ''p'' New)) ''Authorization'' = ''Basic dTpw''"
    by simp
  from WithBasicAuth_Authorization [of "''username''" "''password''" New "''dXNlcm5hbWU6cGFzc3dvcmQ=''"] n
  have 2: "header (WithBasicAuth ''username'' ''password'' New) ''Authorization''
       = Some [''Basic dXNlcm5hbWU6cGFzc3dvcmQ='']"
    and 3: "base64_decode ''dXNlcm5hbWU6cGFzc3dvcmQ='' = Some ''username:password''"
    by simp_all
  from 1 2 3 show ?thesis by blast
qed

section \<open>Resolving the client\<close>

lemma clientFromContext_attached:
  "clientFromContext c w =
     (case attached c of
        Some a \<Rightarrow> (a, w)
      | None \<Rightarrow> (length (clients w), w\<lparr>clients := clients w @ [\<lparr>Timeout = DefaultClientTimeout w\<rparr>]\<rparr>))"
  by (cases "ctx_Value c clientContextKey" rule: assert_Client.cases)
     (auto simp: clientFromContext_def attached_def split: option.splits)

lemma attached_Attach: "attached (AttachClientToContext c p) = p"
  by (simp add: attached_def AttachClientToContext_def context_WithValue_def ctx_Value_def)

lemma attached_Background: "attached context_Background = None"
  by (simp add: attached_def context_Background_def ctx_Value_def)

text \<open>
  C4. From a context that carries no client (none attached, as in the background context,
  or the nil client attached), \<open>clientFromContext\<close> gives a new client: its address is
  past every client there was, the clients there were are as before, and its timeout is
  \<open>DefaultClientTimeout\<close>, one minute at start; resolving again gives another new client.
  From a context made by attaching a client that is not nil it gives that very client and
  changes nothing.
\<close>

theorem clientFromContext_default_or_attached:
  "(attached c = None \<longrightarrow>
      fst (clientFromContext c w) = length (clients w) \<and>
      clients (snd (clientFromContext c w)) = clients w @ [\<lparr>Timeout = DefaultClientTimeout w\<rparr>] \<and>
      Timeout (clients (snd (clientFromContext c w)) ! fst (clientFromContext c w))
        = DefaultClientTimeout w \<and>
      fst (clientFromContext c (snd (clientFromContext c w))) \<noteq> fst (clientFromContext c w)) \<and>
   attached context_Background = None \<and>
   attached (AttachClientToContext c None) = None \<and>
   clientFromContext (AttachClientToContext c (Some a)) w = (a, w) \<and>
   DefaultClientTimeout init_world = 60000000000"
  by (simp add: clientFromContext_attached attached_Attach attached_Background init_world_def
        time_Minute_def)

theorem clientFromContext_default_or_attached_witness:
  "attached [(otherKey ''trace'', OtherVal ''1'')] = None \<and>
   fst (clientFromContext [(otherKey ''trace'', OtherVal ''1'')] init_world) = 0 \<and>
   clients (snd (clientFromContext [(otherKey ''trace'', OtherVal ''1'')] init_world))
     = [\<lparr>Timeout = 60000000000\<rparr>] \<and>
   clientFromContext (AttachClientToContext [(otherKey ''trace'', OtherVal ''1'')] (Some 0))
      \<lparr>clients = [\<lparr>Timeout = 5000000000\<rparr>], bodies = [], DefaultClientTimeout = 60000000000\<rparr>
     = (0, \<lparr>clients = [\<lparr>Timeout = 5000000000\<rparr>], bodies = [], DefaultClientTimeout = 60000000000\<rparr>)"
  using clientFromContext_default_or_attached [of "[(otherKey ''trace'', OtherVal ''1'')]" init_world 0]
    clientFromContext_default_or_attached [of "[(otherKey ''trace'', OtherVal ''1'')]"
      "\<lparr>clients = [\<lparr>Timeout = 5000000000\<rparr>], bodies = [], DefaultClientTimeout = 60000000000\<rparr>" 0]
  by (simp add: attached_def ctx_Value_def init_world_def time_Minute_def)

section \<open>The timeout override\<close>

lemma Client_Do_clients:
  "clients (snd (Client_Do send cl rq w)) = clients w \<and>
   DefaultClientTimeout (snd (Client_Do send cl rq w)) = DefaultClientTimeout w"
  by (simp add: Client_Do_def split: sum.splits prod.splits)

lemma Request_Do_clients:
  "validate (if method = [] then ''GET'' else method) url = None \<Longrightarrow>
   clients (snd (Request_Do send validate r c method url w)) =
     (case timeout r of
        None \<Rightarrow> clients (snd (clientFromContext c w))
      | Some d \<Rightarrow> (clients (snd (clientFromContext c w)))
          [fst (clientFromContext c w) :=
             (clients (snd (clientFromContext c w)) ! fst (clientFromContext c w))\<lparr>Timeout := d\<rparr>]) \<and>
   DefaultClientTimeout (snd (Request_Do send validate r c method url w)) = DefaultClientTimeout w"
  by (simp add: Request_Do_def NewRequestWithContext_def Let_def Client_Do_clients set_Timeout_def
        clientFromContext_attached split: prod.splits option.splits)

text \<open>
  C8. When the request is constructed and a timeout override \<open>d\<close> is set, \<open>Request.Do\<close>
  writes \<open>d\<close> into the timeout of the client it resolved, at that client's address; a
  context that carries this client resolves to the timeout \<open>d\<close> afterwards. No other
  client changes, and \<open>DefaultClientTimeout\<close> does not change. When the context
  carries no client, the client written to is new, so every client there was is as
  before. Hence any context that does not carry the client written to resolves to the same
  timeout after the dispatch as before it.
\<close>

theorem Do_timeout_override_frame:
  assumes ok: "validate (if method = [] then ''GET'' else method) url = None"
    and t: "timeout r = Some d"
    and valid: "\<forall>a. attached c = Some a \<longrightarrow> a < length (clients w)"
    and other: "\<forall>a. attached c2 = Some a \<longrightarrow> a < length (clients w) \<and> attached c \<noteq> Some a"
  shows "Timeout (clients (snd (Request_Do send validate r c method url w))
            ! fst (clientFromContext c w)) = d \<and>
         (attached c \<noteq> None \<longrightarrow>
            resolved_Timeout c (snd (Request_Do send validate r c method url w)) = d) \<and>
         (\<forall>a < length (clients w). a \<noteq> fst (clientFromContext c w) \<longrightarrow>
            clients (snd (Request_Do send validate r c method url w)) ! a = clients w ! a) \<and>
         (attached c = None \<longrightarrow>
            take (length (clients w)) (clients (snd (Request_Do send validate r c method url w)))
              = clients w) \<and>
         DefaultClientTimeout (snd (Request_Do send validate r c method url w))
           = DefaultClientTimeout w \<and>
         resolved_Timeout c2 (snd (Request_Do send validate r c method url w))
           = resolved_Timeout c2 w"
proof -
  let ?w' = "snd (Request_Do send validate r c method url w)"
  have cl: "clients ?w' = (clients (snd (clientFromContext c w)))
          [fst (clientFromContext c w) :=
             (clients (snd (clientFromContext c w)) ! fst (clientFromContext c w))\<lparr>Timeout := d\<rparr>]"
    and dt: "DefaultClientTimeout ?w' = DefaultClientTimeout w"
    using Request_Do_clients [of validate "method" url send r c w] ok t by simp_all
  have applied: "Timeout (clients ?w' ! fst (clientFromContext c w)) = d"
    using valid by (cases "attached c") (simp_all add: cl clientFromContext_attached)
  have shared: "attached c \<noteq> None \<longrightarrow> resolved_Timeout c ?w' = d"
    using applied by (auto simp: resolved_Timeout_def clientFromContext_attached)
  have others: "\<forall>a < length (clients w). a \<noteq> fst (clientFromContext c w) \<longrightarrow>
            clients ?w' ! a = clients w ! a"
    by (cases "attached c") (simp_all add: cl clientFromContext_attached nth_append)
  have default: "attached c = None \<longrightarrow> take (length (clients w)) (clients ?w') = clients w"
    by (simp add: cl clientFromContext_attached)
  have frame: "resolved_Timeout c2 ?w' = resolved_Timeout c2 w"
  proof (cases "attached c2")
    case None
    then show ?thesis
      by (simp add: resolved_Timeout_def clientFromContext_attached dt)
  next
    case (Some a)
    with other have a: "a < length (clients w)" "attached c \<noteq> Some a" by auto
    then have "a \<noteq> fst (clientFromContext c w)"
      by (cases "attached c") (simp_all add: clientFromContext_attached)
    with others a(1) have "clients ?w' ! a = clients w ! a" by blast
    with Some show ?thesis
      by (simp add: resolved_Timeout_def clientFromContext_attached del: One_nat_def)
  qed
  from applied shared others default dt frame show ?thesis by blast
qed

theorem Do_timeout_override_frame_witness:
  "Timeout (clients (snd (Request_Do (\<lambda>cl rq. Inl (ExtError ''refused'')) (\<lambda>m u. None)
        (WithTimeout 10000000000 New) context_Background ''GET'' ''http://localhost''
        \<lparr>clients = [\<lparr>Timeout = 5000000000\<rparr>], bodies = [], DefaultClientTimeout = 60000000000\<rparr>)) ! 1)
     = 10000000000 \<and>
   resolved_Timeout (AttachClientToContext context_Background (Some 0))
      (snd (Request_Do (\<lambda>cl rq. Inl (ExtError ''refused'')) (\<lambda>m u. None)
        (WithTimeout 10000000000 New) context_Background ''GET'' ''http://localhost''
        \<lparr>clients = [\<lparr>Timeout = 5000000000\<rparr>], bodies = [], DefaultClientTimeout = 60000000000\<rparr>))
     = 5000000000 \<and>
   resolved_Timeout context_Background
      (snd (Request_Do (\<lambda>cl rq. Inl (ExtError ''refused'')) (\<lambda>m u. None)
        (WithTimeout 10000000000 New) context_Background ''GET'' ''http://localhost''
        \<lparr>clients = [\<lparr>Timeout = 5000000000\<rparr>], bodies = [], DefaultClientTimeout = 60000000000\<rparr>))
     = 60000000000"
  using Do_timeout_override_frame [of "\<lambda>m u. None" "''GET''" "''http://localhost''"
      "WithTimeout 10000000000 New" 10000000000 context_Background
      "\<lparr>clients = [\<lparr>Timeout = 5000000000\<rparr>], bodies = [], DefaultClientTimeout = 60000000000\<rparr>"
      "AttachClientToContext context_Background (Some 0)" "\<lambda>cl rq. Inl (ExtError ''refused'')"]
    Do_timeout_override_frame [of "\<lambda>m u. None" "''GET''" "''http://localhost''"
      "WithTimeout 10000000000 New" 10000000000 context_Background
      "\<lparr>clients = [\<lparr>Timeout = 5000000000\<rparr>], bodies = [], DefaultClientTimeout = 60000000000\<rparr>"
      context_Background "\<lambda>cl rq. Inl (ExtError ''refused'')"]
  by (simp add: attached_Attach attached_Background WithTimeout_def New_def resolved_Timeout_def
        clientFromContext_attached)

section \<open>The Accept header of the result variants\<close>

text \<open>
  What \<open>WithJSONResult\<close> and \<open>WithXMLResult\<close> do to the header: their test is
  \<open>Get("Accept") == ""\<close>. When it holds, which it does when the request has no Accept
  entry, Accept becomes the single value of the variant; otherwise the request is left as
  it is.
\<close>

lemma Accept_set_when_Get_is_empty:
  "(Header_Get (header r) ''Accept'' = [] \<longrightarrow>
      header (req (WithJSONResult ju r)) = (header r)(''Accept'' \<mapsto> [''application/json'']) \<and>
      header (req (WithXMLResult xu r)) = (header r)(''Accept'' \<mapsto> [''application/xml''])) \<and>
   (Header_Get (header r) ''Accept'' \<noteq> [] \<longrightarrow>
      req (WithJSONResult ju r) = r \<and> req (WithXMLResult xu r) = r) \<and>
   (header r ''Accept'' = None \<longrightarrow> Header_Get (header r) ''Accept'' = [])"
  by (simp add: WithJSONResult_def WithXMLResult_def Header_Set_def Header_Get_def canon_Accept
        jsonMIME_def xmlMIME_def)

lemma Accept_examples:
  "header (req (WithJSONResult (\<lambda>data (d::unit). (None, d)) New)) ''Accept'' = Some [''application/json''] \<and>
   header (req (WithXMLResult (\<lambda>data (d::unit). (None, d)) New)) ''Accept'' = Some [''application/xml''] \<and>
   req (WithJSONResult (\<lambda>data (d::unit). (None, d)) (WithHeader ''Accept'' ''application/xml'' New))
     = WithHeader ''Accept'' ''application/xml'' New \<and>
   req (WithXMLResult (\<lambda>data (d::unit). (None, d)) (WithHeader ''Accept'' ''application/json'' New))
     = WithHeader ''Accept'' ''application/json'' New"
  using Accept_set_when_Get_is_empty [of New "\<lambda>data (d::unit). (None, d)" "\<lambda>data (d::unit). (None, d)"]
    Accept_set_when_Get_is_empty [of "WithHeader ''Accept'' ''application/xml'' New"
       "\<lambda>data (d::unit). (None, d)" "\<lambda>data (d::unit). (None, d)"]
    Accept_set_when_Get_is_empty [of "WithHeader ''Accept'' ''application/json'' New"
       "\<lambda>data (d::unit). (None, d)" "\<lambda>data (d::unit). (None, d)"]
  by (simp add: New_def WithHeader_def Header_Get_def Header_Set_def canon_Accept)

text \<open>
  C5. The doc comments of \<open>WithJSONResult\<close> and \<open>WithXMLResult\<close> say that Accept is set
  if the header is not already set. A caller adds to Accept the empty value and then
  \<open>application/xml\<close>, so that the request has the Accept header with these two values.
  \<open>WithJSONResult\<close> replaces them by the single value \<open>application/json\<close>; likewise
  \<open>WithXMLResult\<close> replaces the empty value and \<open>application/json\<close> by
  \<open>application/xml\<close>. An Accept header that the caller has set is overwritten when its
  first value is empty.
\<close>

theorem result_variant_overwrites_Accept_with_empty_first_value:
  "header (WithMultiValuedHeader ''Accept'' ''application/xml'' (WithMultiValuedHeader ''Accept'' [] New))
     ''Accept'' = Some [[], ''application/xml''] \<and>
   header (req (WithJSONResult (\<lambda>data (d::unit). (None, d))
       (WithMultiValuedHeader ''Accept'' ''application/xml'' (WithMultiValuedHeader ''Accept'' [] New))))
     ''Accept'' = Some [''application/json''] \<and>
   header (WithMultiValuedHeader ''Accept'' ''application/json'' (WithMultiValuedHeader ''Accept'' [] New))
     ''Accept'' = Some [[], ''application/json''] \<and>
   header (req (WithXMLResult (\<lambda>data (d::unit). (None, d))
       (WithMultiValuedHeader ''Accept'' ''application/json'' (WithMultiValuedHeader ''Accept'' [] New))))
     ''Accept'' = Some [''application/xml'']"
  by (simp add: WithJSONResult_def WithXMLResult_def WithMultiValuedHeader_def Header_Add_def
        Header_Set_def Header_Get_def canon_Accept New_def jsonMIME_def xmlMIME_def Let_def)

section \<open>Decoding errors\<close>

text \<open>
  C10. When the XML parser fails on the data, the decode function that \<open>WithXMLResult\<close>
  installs returns the parser's error wrapped by \<open>fmt.Errorf\<close> with the prefix
  \<open>failed to unmarshal JSON: \<close>, the prefix that \<open>WithJSONResult\<close> puts before the error
  of its own parser: the message is the prefix followed by the parser's message, and
  unwrapping gives the parser's error.
\<close>

theorem XML_decode_error_says_JSON:
  assumes "xml_Unmarshal data dest = (Some err, dest')"
  shows "map_option (\<lambda>f. f data dest) (unmarshal (WithXMLResult xml_Unmarshal r))
           = Some (Some (Errorf ''failed to unmarshal JSON: '' err), dest') \<and>
         map_option (\<lambda>f. f data dest) (unmarshal (WithJSONResult xml_Unmarshal r))
           = Some (Some (Errorf ''failed to unmarshal JSON: '' err), dest') \<and>
         Error (Errorf ''failed to unmarshal JSON: '' err) = ''failed to unmarshal JSON: '' @ Error err \<and>
         Unwrap (Errorf ''failed to unmarshal JSON: '' err) = Some err"
  using assms by (simp add: WithXMLResult_def WithJSONResult_def)

theorem XML_decode_error_says_JSON_witness:
  "map_option (\<lambda>f. f ''<a>'' ())
      (unmarshal (WithXMLResult (\<lambda>data (d::unit). (Some (ExtError ''EOF''), d)) New))
     = Some (Some (Errorf ''failed to unmarshal JSON: '' (ExtError ''EOF'')), ()) \<and>
   Error (Errorf ''failed to unmarshal JSON: '' (ExtError ''EOF'')) = ''failed to unmarshal JSON: EOF''"
  using XML_decode_error_says_JSON [of "\<lambda>data (d::unit). (Some (ExtError ''EOF''), d)" "''<a>''" "()"
      "ExtError ''EOF''" "()" New]
  by simp

section \<open>The response body in \<open>withResult.Do\<close>\<close>

lemma Client_Do_Inr:
  "Client_Do send cl rq w = (Inr resp, w1) \<Longrightarrow>
   Body resp < length (bodies w1) \<and> \<not> closed (bodies w1 ! Body resp)"
  by (auto simp: Client_Do_def split: sum.splits prod.splits)

lemma Request_Do_Inr:
  "Request_Do send validate r c method url w = (Inr resp, w1) \<Longrightarrow>
   Body resp < length (bodies w1) \<and> \<not> closed (bodies w1 ! Body resp)"
  by (auto simp: Request_Do_def Let_def split: sum.splits prod.splits dest: Client_Do_Inr)

lemma Body_ReadAll_length: "length (bodies (snd (Body_ReadAll b w))) = length (bodies w)"
  by (simp add: Body_ReadAll_def Let_def)

lemma withResult_Do_body_length:
  "length (bodies (snd (snd (withResult_Do_body wr resp dest w)))) = length (bodies w)"
  using Body_ReadAll_length [of "Body resp" w]
  by (auto simp: withResult_Do_body_def split: prod.splits option.splits)

lemma Body_Close_closed:
  "b < length (bodies w) \<Longrightarrow> closed (bodies (Body_Close b w) ! b)"
  by (simp add: Body_Close_def)

lemma withResult_Do_body_read_error:
  "\<not> closed (bodies w ! Body resp) \<Longrightarrow> fail (remaining (bodies w ! Body resp)) = Some e \<Longrightarrow>
   fst (withResult_Do_body wr resp dest w) = (None, Some (Errorf ''failed to read response body: '' e))"
  by (simp add: withResult_Do_body_def Body_ReadAll_def ReadAll_def Let_def)

text \<open>
  C2. When \<open>Request.Do\<close> succeeds, the body of its response is closed in the state that
  \<open>withResult.Do\<close> leaves, whatever it returns: a result, a decoding error, or the error
  of a read that failed, which it returns as \<open>failed to read response body: \<close> wrapping the
  read error.
\<close>

theorem withResult_Do_closes_body:
  assumes "Request_Do send validate (req wr) c method url w = (Inr resp, w1)"
  shows "closed (bodies (snd (snd (withResult_Do send validate wr c method url dest w))) ! Body resp) \<and>
         (\<forall>e. fail (remaining (bodies w1 ! Body resp)) = Some e \<longrightarrow>
            fst (withResult_Do send validate wr c method url dest w)
              = (None, Some (Errorf ''failed to read response body: '' e)))"
proof -
  from assms have b: "Body resp < length (bodies w1)" and o: "\<not> closed (bodies w1 ! Body resp)"
    using Request_Do_Inr by blast+
  obtain ret dest' w2 where body: "withResult_Do_body wr resp dest w1 = (ret, dest', w2)"
    by (cases "withResult_Do_body wr resp dest w1") auto
  have do: "withResult_Do send validate wr c method url dest w = (ret, dest', Body_Close (Body resp) w2)"
    by (simp add: withResult_Do_def assms body)
  have "length (bodies w2) = length (bodies w1)"
    using withResult_Do_body_length [of wr resp dest w1] by (simp add: body)
  with b have "closed (bodies (Body_Close (Body resp) w2) ! Body resp)"
    by (simp add: Body_Close_closed)
  moreover have "fst (withResult_Do send validate wr c method url dest w)
              = (None, Some (Errorf ''failed to read response body: '' e))"
    if "fail (remaining (bodies w1 ! Body resp)) = Some e" for e
    using withResult_Do_body_read_error [OF o that, of wr dest] by (simp add: do body)
  ultimately show ?thesis by (simp add: do)
qed

lemma Request_Do_example_read_error:
  "Request_Do (\<lambda>cl rq. Inr (200, \<lparr>content = ''par'', fail = Some (ExtError ''unexpected EOF'')\<rparr>))
      (\<lambda>m u. None) (req (WithResult New :: unit withResult)) context_Background ''GET'' ''http://localhost''
      init_world
   = (Inr \<lparr>StatusCode = 200, Body = 0\<rparr>,
      \<lparr>clients = [\<lparr>Timeout = 60000000000\<rparr>],
       bodies = [\<lparr>remaining = \<lparr>content = ''par'', fail = Some (ExtError ''unexpected EOF'')\<rparr>,
                  closed = False\<rparr>],
       DefaultClientTimeout = 60000000000\<rparr>)"
  by (simp add: Request_Do_def NewRequestWithContext_def WithResult_def New_def context_Background_def
        clientFromContext_def ctx_Value_def Client_Do_def init_world_def time_Minute_def)

theorem withResult_Do_closes_body_witness:
  "closed (bodies (snd (snd (withResult_Do
       (\<lambda>cl rq. Inr (200, \<lparr>content = ''par'', fail = Some (ExtError ''unexpected EOF'')\<rparr>))
       (\<lambda>m u. None) (WithResult New) context_Background ''GET'' ''http://localhost'' () init_world))) ! 0) \<and>
   fst (withResult_Do
       (\<lambda>cl rq. Inr (200, \<lparr>content = ''par'', fail = Some (ExtError ''unexpected EOF'')\<rparr>))
       (\<lambda>m u. None) (WithResult New) context_Background ''GET'' ''http://localhost'' () init_world)
     = (None, Some (Errorf ''failed to read response body: '' (ExtError ''unexpected EOF'')))"
  using withResult_Do_closes_body [OF Request_Do_example_read_error, of "()"]
  by simp

text \<open>When decoding fails, \<open>withResult.Do\<close> returns the decoder's error and no result.\<close>

lemma withResult_Do_decode_error:
  assumes "Request_Do send validate (req wr) c method url w = (Inr resp, w1)"
    and "fail (remaining (bodies w1 ! Body resp)) = None"
    and "unmarshal wr = Some f"
    and "f (content (remaining (bodies w1 ! Body resp))) dest = (Some e, dest')"
  shows "fst (withResult_Do send validate wr c method url dest w) = (None, Some e)"
proof -
  from assms(1) have "\<not> closed (bodies w1 ! Body resp)"
    using Request_Do_Inr by blast
  with assms show ?thesis
    by (simp add: withResult_Do_def withResult_Do_body_def Body_ReadAll_def ReadAll_def Let_def
          split: prod.splits)
qed

text \<open>
  C1. The client answers 200 with the body \<open>{"id":\<close> and the JSON parser fails on it
  with \<open>unexpected end of JSON input\<close>. \<open>withResult.Do\<close> of \<open>WithJSONResult\<close> returns
  the parser's error wrapped with \<open>failed to unmarshal JSON: \<close>, and a nil \<open>*Result\<close>: the
  response does not reach the caller.
\<close>

theorem withResult_Do_decode_error_returns_nil_Result:
  "fst (withResult_Do
       (\<lambda>cl rq. Inr (200, \<lparr>content = ''{\"id\":'', fail = None\<rparr>))
       (\<lambda>m u. None)
       (WithJSONResult (\<lambda>data (d::unit). if data = ''{\"id\":''
           then (Some (ExtError ''unexpected end of JSON input''), d) else (None, d)) New)
       context_Background ''GET'' ''http://localhost'' () init_world)
     = (None, Some (Errorf ''failed to unmarshal JSON: '' (ExtError ''unexpected end of JSON input'')))"
  by (simp add: withResult_Do_def withResult_Do_body_def Body_ReadAll_def ReadAll_def Body_Close_def
        Request_Do_def NewRequestWithContext_def WithJSONResult_def New_def context_Background_def
        clientFromContext_def ctx_Value_def Client_Do_def init_world_def Let_def)

section \<open>The JSON body\<close>

text \<open>
  C3, as amended. When the value serializes to the bytes \<open>b\<close> and the request can be
  constructed, the body that \<open>WithJSONBody\<close> installs reads as \<open>b\<close> followed by one newline
  and then ends without error; \<open>Request.Do\<close> hands the client a request with that body
  and with Content-Type set to the single value \<open>application/json\<close>, whatever it was
  before; a later \<open>WithHeader\<close> on Content-Type replaces the value.
\<close>

theorem WithJSONBody_body_and_Content_Type:
  assumes "marshal v = Inr b"
    and "validate (if method = [] then ''GET'' else method) url = None"
  shows "map_option ReadAll (body (WithJSONBody marshal v r)) = Some (b @ [CHR 0x0A], None) \<and>
         Request_Do send validate (WithJSONBody marshal v r) c method url w =
           (let (cl, w1) = clientFromContext c w;
                w2 = (case timeout r of Some d \<Rightarrow> set_Timeout cl d w1 | None \<Rightarrow> w1)
            in Client_Do send cl
                 \<lparr>Method = (if method = [] then ''GET'' else method), URL = url,
                  Header = (header r)(''Content-Type'' \<mapsto> [''application/json'']),
                  ReqBody = Some \<lparr>content = b @ [CHR 0x0A], fail = None\<rparr>\<rparr> w2) \<and>
         header (WithJSONBody marshal v r) ''Content-Type'' = Some [''application/json''] \<and>
         (CanonicalMIMEHeaderKey key = ''Content-Type'' \<longrightarrow>
            header (WithHeader key x (WithJSONBody marshal v r)) ''Content-Type'' = Some [x])"
  using assms
  by (simp add: WithJSONBody_def json_Encoder_Encode_def io_Pipe_def ReadAll_def Request_Do_def
        NewRequestWithContext_def Header_Set_def canon_Content_Type jsonMIME_def WithHeader_def
        Let_def split: prod.splits)

theorem WithJSONBody_body_and_Content_Type_witness:
  "map_option ReadAll (body (WithJSONBody (\<lambda>u::unit. Inr ''{}'') () (WithContentType ''text/plain'' New)))
     = Some ([CHR ''{'', CHR ''}'', CHR 0x0A], None) \<and>
   header (WithJSONBody (\<lambda>u::unit. Inr ''{}'') () (WithContentType ''text/plain'' New)) ''Content-Type''
     = Some [''application/json''] \<and>
   header (WithHeader ''content-type'' ''text/json''
       (WithJSONBody (\<lambda>u::unit. Inr ''{}'') () (WithContentType ''text/plain'' New))) ''Content-Type''
     = Some [''text/json'']"
  using WithJSONBody_body_and_Content_Type [of "\<lambda>u::unit. Inr ''{}''" "()" "''{}''" "\<lambda>m u. None"
      "''POST''" "''http://localhost''" "WithContentType ''text/plain'' New"
      "\<lambda>cl rq. Inl (ExtError ''refused'')" context_Background init_world "''content-type''" "''text/json''"]
  by (simp add: canon_content_type)

text \<open>
  C3 as stated fails by the newline that \<open>Encode\<close> appends: for a value whose
  serialization is \<open>{}\<close> the body is \<open>{}\<close> and a newline.
\<close>

theorem WithJSONBody_trailing_newline_counterexample:
  "map_option ReadAll (body (WithJSONBody (\<lambda>u::unit. Inr ''{}'') () New))
     = Some ([CHR ''{'', CHR ''}'', CHR 0x0A], None) \<and>
   map_option ReadAll (body (WithJSONBody (\<lambda>u::unit. Inr ''{}'') () New)) \<noteq> Some (''{}'', None)"
  by (simp add: WithJSONBody_def json_Encoder_Encode_def io_Pipe_def ReadAll_def)

text \<open>
  When the value does not serialize, nothing is written and the reader of the body gets
  the serializer's error.
\<close>

lemma WithJSONBody_serialization_error:
  "marshal v = Inl err \<Longrightarrow>
   map_option ReadAll (body (WithJSONBody marshal v r)) = Some ([], Some err)"
  by (simp add: WithJSONBody_def json_Encoder_Encode_def io_Pipe_def ReadAll_def)

end
